theory Spec2Isabelle
  imports Main "HOL-Library.Word"
begin

section \<open>The RFID device controller\<close>

text \<open>
  A shallow embedding of \<^verbatim>\<open>src/rfid_module.py\<close> (reader and server-triggered enroller)
  and \<^verbatim>\<open>src/rfid_module_enroll.py\<close> (auto-capture enroller).

  Every effect of the code is an entry of a trace. The collaborators the code talks to
  (the I2C bring-up, the PN532 polls, the remote HTTP service) are stubs that script what
  each call does. Durations are whole milliseconds: \<^verbatim>\<open>time.sleep(0.1)\<close> is
  \<open>Sleep 100\<close>. Calls of \<^verbatim>\<open>print\<close> have no entry in the trace.
\<close>

subsection \<open>Data\<close>

type_synonym ms = nat

datatype level = LOW | HIGH

text \<open>What \<^verbatim>\<open>HardwareController\<close> does to the GPIO library and to the clock.\<close>

datatype gpio =
    Setmode
  | Setwarnings
  | Setup nat
  | Output nat level
  | Pause ms
  | Cleanup

text \<open>The dictionary \<^verbatim>\<open>self.pins\<close>.\<close>

record pins =
  green_led :: nat
  red_led :: nat
  buzzer :: nat

datatype indicator = Success | Failure

text \<open>The methods of \<^verbatim>\<open>HardwareController\<close> that \<^verbatim>\<open>PN532Handler\<close> calls.\<close>

datatype hw_call =
    Construct
  | Indicate indicator
  | Start_enrollment_indicator
  | Cleanup_call

text \<open>
  The exception classes the handlers of the code tell apart. \<open>KeyboardInterrupt\<close> is
  the only one that is not a subclass of \<^verbatim>\<open>Exception\<close>.
\<close>

datatype exn = RequestException | RuntimeError | AttributeError | OtherException | KeyboardInterrupt

definition is_Exception :: "exn \<Rightarrow> bool" where
  "is_Exception e = (e \<noteq> KeyboardInterrupt)"

text \<open>
  How a call ended: it returned a value, it raised, or the stub's script (or the fuel of a
  \<^verbatim>\<open>while True\<close> loop) ran out while the code was still running.
\<close>

datatype 'a outcome = Returned 'a | Raised exn | Exhausted

text \<open>The actions of \<^verbatim>\<open>PN532Handler\<close> and of the main program, in the order they happen.\<close>

datatype action =
    Hw hw_call
  | Gpio_cleanup
  | Sleep ms
  | Bus_acquire
  | Driver_create
  | Sam_configuration
  | Firmware_probe
  | Poll
  | Http_get string
  | Http_post_enroll string
  | Http_post_temporary string
  | Server_start

text \<open>
  One bring-up attempt either passes or fails at one of its four steps:
  \<^verbatim>\<open>busio.I2C\<close>, \<^verbatim>\<open>PN532_I2C\<close>, \<^verbatim>\<open>SAM_configuration\<close>, \<^verbatim>\<open>firmware_version\<close>.
\<close>

datatype init_step = Bus | Driver | Sam | Firmware

datatype init_outcome = Init_ok | Init_fails init_step

text \<open>
  One call of \<^verbatim>\<open>read_passive_target(timeout=0.5)\<close>: the time it took, and whether it
  returned a UID, returned \<^verbatim>\<open>None\<close> or raised.
\<close>

datatype poll = Uid "8 word list" | No_card | Poll_raises exn

text \<open>
  One remote call. Of the body of a response the code only looks at
  \<^verbatim>\<open>response.json().get('allowed')\<close>: either that has a truth value (a missing key
  gives \<^verbatim>\<open>None\<close>, which is false), or evaluating it raises.
\<close>

datatype body = Allowed_is bool | Json_raises exn

datatype http_outcome = Response nat body | Raises exn

record world =
  polls :: "(ms \<times> poll) list"
  remote :: "http_outcome list"

record handler =
  device_mode :: int
  retry_count :: int
  has_hw :: bool
  has_pn532 :: bool

record 'a run =
  acts :: "action list"
  rest :: world
  out :: "'a outcome"

record 'a hrun =
  h_acts :: "action list"
  h_self :: handler
  h_out :: "'a outcome"

record card_read =
  cr_acts :: "action list"
  cr_elapsed :: ms
  cr_polls :: "(ms \<times> poll) list"
  cr_out :: "string option outcome"

definition READER_MODE :: int where
  "READER_MODE = 0"

definition ENROLLER_MODE :: int where
  "ENROLLER_MODE = 1"

subsection \<open>HardwareController\<close>

definition blink_led :: "nat \<Rightarrow> ms \<Rightarrow> gpio list" where
  "blink_led led_pin duration = [Output led_pin HIGH, Pause duration, Output led_pin LOW]"

definition beep :: "pins \<Rightarrow> ms \<Rightarrow> gpio list" where
  "beep p duration = [Output (buzzer p) HIGH, Pause duration, Output (buzzer p) LOW]"

definition HardwareController_init :: "pins \<Rightarrow> gpio list" where
  "HardwareController_init p =
     [Setmode, Setwarnings] @
     concat (map (\<lambda>pin. [Setup pin, Output pin LOW]) [green_led p, red_led p, buzzer p])"

definition start_enrollment_indicator :: "pins \<Rightarrow> gpio list" where
  "start_enrollment_indicator p = blink_led (green_led p) 500"

definition cleanup :: "gpio list" where
  "cleanup = [Cleanup]"

text \<open>\<^verbatim>\<open>src/rfid_module.py\<close>: default pins, success and failure cues.\<close>

definition pins_rfid :: pins where
  "pins_rfid = \<lparr>green_led = 15, red_led = 14, buzzer = 10\<rparr>"

definition indicate_success :: "pins \<Rightarrow> gpio list" where
  "indicate_success p = beep p 100 @ blink_led (green_led p) 2000"

definition indicate_failure :: "pins \<Rightarrow> gpio list" where
  "indicate_failure p =
     concat (replicate 2 (beep p 100 @ blink_led (red_led p) 100 @ [Pause 100]))"

text \<open>\<^verbatim>\<open>src/rfid_module_enroll.py\<close>: default pins, success and failure cues.\<close>

definition pins_enroll :: pins where
  "pins_enroll = \<lparr>green_led = 14, red_led = 15, buzzer = 10\<rparr>"

definition indicate_success_enroll :: "pins \<Rightarrow> gpio list" where
  "indicate_success_enroll p = blink_led (green_led p) 2000"

definition indicate_failure_enroll :: "pins \<Rightarrow> gpio list" where
  "indicate_failure_enroll p =
     concat (replicate 2 [Pause 100]) @ blink_led (red_led p) 2000"

text \<open>What a method call does at the GPIO level, in each of the two source files.\<close>

fun hw_rfid :: "hw_call \<Rightarrow> gpio list" where
  "hw_rfid Construct = HardwareController_init pins_rfid"
| "hw_rfid (Indicate Success) = indicate_success pins_rfid"
| "hw_rfid (Indicate Failure) = indicate_failure pins_rfid"
| "hw_rfid Start_enrollment_indicator = start_enrollment_indicator pins_rfid"
| "hw_rfid Cleanup_call = cleanup"

fun hw_enroll :: "hw_call \<Rightarrow> gpio list" where
  "hw_enroll Construct = HardwareController_init pins_enroll"
| "hw_enroll (Indicate Success) = indicate_success_enroll pins_enroll"
| "hw_enroll (Indicate Failure) = indicate_failure_enroll pins_enroll"
| "hw_enroll Start_enrollment_indicator = start_enrollment_indicator pins_enroll"
| "hw_enroll Cleanup_call = cleanup"

text \<open>Measures of a cue: how often a pin is switched on, and the signals in a trace.\<close>

definition switched_on :: "nat \<Rightarrow> gpio list \<Rightarrow> nat" where
  "switched_on pin gs = length (filter (\<lambda>g. g = Output pin HIGH) gs)"

fun signals :: "action list \<Rightarrow> indicator list" where
  "signals [] = []"
| "signals (Hw (Indicate s) # as) = s # signals as"
| "signals (a # as) = signals as"

subsection \<open>PN532Handler: bring-up\<close>

text \<open>
  The steps one attempt runs before it passes or fails. \<^verbatim>\<open>self.pn532\<close> is assigned
  as soon as \<^verbatim>\<open>PN532_I2C\<close> has returned, also when a later step of the attempt fails.
\<close>

fun attempt_acts :: "init_outcome \<Rightarrow> action list" where
  "attempt_acts (Init_fails Bus) = [Bus_acquire]"
| "attempt_acts (Init_fails Driver) = [Bus_acquire, Sleep 1000, Driver_create]"
| "attempt_acts (Init_fails Sam) = [Bus_acquire, Sleep 1000, Driver_create, Sam_configuration]"
| "attempt_acts (Init_fails Firmware) =
     [Bus_acquire, Sleep 1000, Driver_create, Sam_configuration, Firmware_probe]"
| "attempt_acts Init_ok =
     [Bus_acquire, Sleep 1000, Driver_create, Sam_configuration, Firmware_probe]"

fun assigns :: "init_outcome \<Rightarrow> bool" where
  "assigns (Init_fails Bus) = False"
| "assigns (Init_fails Driver) = False"
| "assigns _ = True"

definition h_before :: "action list \<Rightarrow> 'a hrun \<Rightarrow> 'a hrun" where
  "h_before as r = r\<lparr>h_acts := as @ h_acts r\<rparr>"

text \<open>
  \<^verbatim>\<open>_initialize_pn532\<close>, the same in both files: the \<^verbatim>\<open>for attempt in range(n)\<close>
  loop from \<open>attempt\<close> on. The stub says how each attempt ends. The loop returns
  \<^verbatim>\<open>True\<close> from a passing attempt, raises \<^verbatim>\<open>RuntimeError\<close> from the handler of the last
  failing one, and falls off its end (returning \<^verbatim>\<open>None\<close>) when the range is empty.
\<close>

function initialize_from :: "int \<Rightarrow> (nat \<Rightarrow> init_outcome) \<Rightarrow> nat \<Rightarrow> handler \<Rightarrow> bool option hrun" where
  "initialize_from n stub attempt h =
     (if int attempt < n then
        (let h' = (if assigns (stub attempt) then h\<lparr>has_pn532 := True\<rparr> else h) in
         case stub attempt of
           Init_ok \<Rightarrow> \<lparr>h_acts = attempt_acts Init_ok, h_self = h', h_out = Returned (Some True)\<rparr>
         | Init_fails s \<Rightarrow>
             if int attempt < n - 1
             then h_before (attempt_acts (Init_fails s) @ [Sleep 2000])
                    (initialize_from n stub (Suc attempt) h')
             else \<lparr>h_acts = attempt_acts (Init_fails s), h_self = h', h_out = Raised RuntimeError\<rparr>)
      else \<lparr>h_acts = [], h_self = h, h_out = Returned None\<rparr>)"
  by pat_completeness auto
termination
  by (relation "measure (\<lambda>(n, stub, attempt, h). nat (n - int attempt))") auto

definition initialize_pn532 :: "handler \<Rightarrow> (nat \<Rightarrow> init_outcome) \<Rightarrow> bool option hrun" where
  "initialize_pn532 h stub = initialize_from (retry_count h) stub 0 h"

text \<open>
  \<^verbatim>\<open>PN532Handler.__init__\<close>: the attributes, the hardware controller, then the bring-up,
  whose return value is dropped and whose exception leaves the constructor.
\<close>

definition PN532Handler_init :: "int \<Rightarrow> int \<Rightarrow> (nat \<Rightarrow> init_outcome) \<Rightarrow> unit hrun" where
  "PN532Handler_init mode n stub =
     (let r = initialize_pn532
                \<lparr>device_mode = mode, retry_count = n, has_hw = True, has_pn532 = False\<rparr> stub
      in \<lparr>h_acts = Hw Construct # h_acts r, h_self = h_self r,
          h_out = (case h_out r of Returned _ \<Rightarrow> Returned () | Raised e \<Rightarrow> Raised e
                   | Exhausted \<Rightarrow> Exhausted)\<rparr>)"

text \<open>\<^verbatim>\<open>PN532Handler.__del__\<close>.\<close>

definition PN532Handler_del :: "handler \<Rightarrow> action list" where
  "PN532Handler_del h = (if has_hw h then [Hw Cleanup_call] else [])"

subsection \<open>PN532Handler: reading a card\<close>

definition hex_digit :: "nat \<Rightarrow> char" where
  "hex_digit n = ''0123456789abcdef'' ! n"

definition hex_byte :: "8 word \<Rightarrow> string" where
  "hex_byte b = [hex_digit (unat b div 16), hex_digit (unat b mod 16)]"

text \<open>\<^verbatim>\<open>bytes(uid).hex()\<close>\<close>

definition hex_of_bytes :: "8 word list \<Rightarrow> string" where
  "hex_of_bytes uid = concat (map hex_byte uid)"

definition cr_before :: "action list \<Rightarrow> card_read \<Rightarrow> card_read" where
  "cr_before as r = r\<lparr>cr_acts := as @ cr_acts r\<rparr>"

text \<open>
  \<^verbatim>\<open>read_card\<close>, the same in both files: the \<^verbatim>\<open>while\<close> loop, entered with
  \<^verbatim>\<open>time.time() - start_time\<close> equal to \<open>el\<close>. The clock advances by what the polls
  and the sleeps of the loop take. Without the attribute \<^verbatim>\<open>self.pn532\<close> the poll
  expression raises \<^verbatim>\<open>AttributeError\<close> before it reaches the peripheral, and the
  handler for \<^verbatim>\<open>Exception\<close> sleeps and goes on.
\<close>

function read_card_from :: "bool \<Rightarrow> ms \<Rightarrow> ms \<Rightarrow> (ms \<times> poll) list \<Rightarrow> card_read" where
  "read_card_from pn532 timeout el ps =
     (if el < timeout then
        (if \<not> pn532 then cr_before [Sleep 100] (read_card_from pn532 timeout (el + 100) ps)
         else case ps of
           [] \<Rightarrow> \<lparr>cr_acts = [], cr_elapsed = el, cr_polls = [], cr_out = Exhausted\<rparr>
         | (d, r) # ps' \<Rightarrow>
             (case r of
                Uid uid \<Rightarrow> \<lparr>cr_acts = [Poll], cr_elapsed = el + d, cr_polls = ps',
                            cr_out = Returned (Some (hex_of_bytes uid))\<rparr>
              | No_card \<Rightarrow> cr_before [Poll] (read_card_from pn532 timeout (el + d) ps')
              | Poll_raises e \<Rightarrow>
                  if is_Exception e
                  then cr_before [Poll, Sleep 100] (read_card_from pn532 timeout (el + d + 100) ps')
                  else \<lparr>cr_acts = [Poll], cr_elapsed = el + d, cr_polls = ps',
                        cr_out = Raised e\<rparr>))
      else \<lparr>cr_acts = [], cr_elapsed = el, cr_polls = ps, cr_out = Returned None\<rparr>)"
  by pat_completeness auto
termination
  by (relation "measures [\<lambda>(pn532, timeout, el, ps). length ps,
                          \<lambda>(pn532, timeout, el, ps). timeout - el]") auto

definition read_card :: "handler \<Rightarrow> ms \<Rightarrow> (ms \<times> poll) list \<Rightarrow> card_read" where
  "read_card h timeout ps = read_card_from (has_pn532 h) timeout 0 ps"

subsection \<open>Reader mode: the verification loop\<close>

definition r_before :: "action list \<Rightarrow> 'a run \<Rightarrow> 'a run" where
  "r_before as r = r\<lparr>acts := as @ acts r\<rparr>"

text \<open>
  The handler \<^verbatim>\<open>except requests.RequestException\<close> of one cycle: it signals failure,
  and the cycle goes on to its cooldown. Any other exception leaves the loop.
\<close>

definition check_card_except :: "string \<Rightarrow> exn \<Rightarrow> action list \<times> unit outcome" where
  "check_card_except card_id e =
     (if e = RequestException
      then ([Http_get card_id, Hw (Indicate Failure), Sleep 500], Returned ())
      else ([Http_get card_id], Raised e))"

text \<open>
  One cycle of \<^verbatim>\<open>check_card_access\<close> from the point where \<^verbatim>\<open>read_card\<close> has
  returned \<open>card_id\<close>: the remote call, the signal, the cooldown. The body of the
  response is only looked at when the status is 200 (\<^verbatim>\<open>and\<close> is short-circuit).
\<close>

definition check_card_event :: "string \<Rightarrow> http_outcome \<Rightarrow> action list \<times> unit outcome" where
  "check_card_event card_id x =
     (case x of
        Raises e \<Rightarrow> check_card_except card_id e
      | Response status b \<Rightarrow>
          if status = 200 then
            (case b of
               Json_raises e \<Rightarrow> check_card_except card_id e
             | Allowed_is allowed \<Rightarrow>
                 if allowed
                 then ([Http_get card_id, Hw (Indicate Success), Sleep 500], Returned ())
                 else ([Http_get card_id, Hw (Indicate Failure), Sleep 500], Returned ()))
          else ([Http_get card_id, Hw (Indicate Failure), Sleep 500], Returned ()))"

text \<open>
  The \<^verbatim>\<open>while True\<close> loop of \<^verbatim>\<open>check_card_access\<close>; \<open>fuel\<close> bounds the number of
  cycles that are observed.
\<close>

fun check_card_access_loop :: "nat \<Rightarrow> handler \<Rightarrow> world \<Rightarrow> unit run" where
  "check_card_access_loop 0 h w = \<lparr>acts = [], rest = w, out = Exhausted\<rparr>"
| "check_card_access_loop (Suc fuel) h w =
     (let r = read_card h 1000 (polls w); w' = w\<lparr>polls := cr_polls r\<rparr> in
      case cr_out r of
        Exhausted \<Rightarrow> \<lparr>acts = cr_acts r, rest = w', out = Exhausted\<rparr>
      | Raised e \<Rightarrow> \<lparr>acts = cr_acts r, rest = w', out = Raised e\<rparr>
      | Returned None \<Rightarrow> r_before (cr_acts r) (check_card_access_loop fuel h w')
      | Returned (Some card_id) \<Rightarrow>
          (case remote w' of
             [] \<Rightarrow> \<lparr>acts = cr_acts r, rest = w', out = Exhausted\<rparr>
           | x # xs \<Rightarrow>
               (case check_card_event card_id x of
                  (as, Returned _) \<Rightarrow>
                    r_before (cr_acts r @ as) (check_card_access_loop fuel h (w'\<lparr>remote := xs\<rparr>))
                | (as, Raised e) \<Rightarrow>
                    \<lparr>acts = cr_acts r @ as, rest = w'\<lparr>remote := xs\<rparr>, out = Raised e\<rparr>
                | (as, Exhausted) \<Rightarrow>
                    \<lparr>acts = cr_acts r @ as, rest = w'\<lparr>remote := xs\<rparr>, out = Exhausted\<rparr>)))"

text \<open>
  \<^verbatim>\<open>check_card_access\<close>: the mode check, the loop, and the two handlers around the
  loop, each of which prints and lets the method return.
\<close>

definition check_card_access :: "nat \<Rightarrow> handler \<Rightarrow> world \<Rightarrow> unit run" where
  "check_card_access fuel h w =
     (if device_mode h \<noteq> READER_MODE then \<lparr>acts = [], rest = w, out = Raised RuntimeError\<rparr>
      else
        (let r = check_card_access_loop fuel h w in
         case out r of
           Raised e \<Rightarrow>
             if e = KeyboardInterrupt then r\<lparr>out := Returned ()\<rparr>
             else if is_Exception e then r\<lparr>out := Returned ()\<rparr>
             else r
         | _ \<Rightarrow> r))"

subsection \<open>Enroller mode, server-triggered (\<^verbatim>\<open>src/rfid_module.py\<close>)\<close>

text \<open>The message literals of the responses, which the source writes in Korean.\<close>

datatype message = Read_timeout | Enroll_ok | Remote_failed | Exception_text exn

datatype json = Str string | Msg message

record response =
  status_code :: nat
  json_body :: "(string \<times> json) list"

text \<open>The handler \<^verbatim>\<open>except Exception\<close> of the route.\<close>

definition enroll_except :: "action list \<Rightarrow> world \<Rightarrow> exn \<Rightarrow> response run" where
  "enroll_except as w e =
     (if is_Exception e
      then \<lparr>acts = as @ [Hw (Indicate Failure)], rest = w,
            out = Returned \<lparr>status_code = 500,
                    json_body = [(''status'', Str ''error''), (''message'', Msg (Exception_text e))]\<rparr>\<rparr>
      else \<lparr>acts = as, rest = w, out = Raised e\<rparr>)"

text \<open>The route \<^verbatim>\<open>POST /api\<close>: one request.\<close>

definition enroll :: "handler \<Rightarrow> world \<Rightarrow> response run" where
  "enroll h w =
     (let r = read_card h 10000 (polls w);
          as = Hw Start_enrollment_indicator # cr_acts r;
          w' = w\<lparr>polls := cr_polls r\<rparr> in
      case cr_out r of
        Exhausted \<Rightarrow> \<lparr>acts = as, rest = w', out = Exhausted\<rparr>
      | Raised e \<Rightarrow> enroll_except as w' e
      | Returned None \<Rightarrow>
          \<lparr>acts = as @ [Hw (Indicate Failure)], rest = w',
           out = Returned \<lparr>status_code = 408,
                   json_body = [(''status'', Str ''error''), (''message'', Msg Read_timeout)]\<rparr>\<rparr>
      | Returned (Some card_id) \<Rightarrow>
          (case remote w' of
             [] \<Rightarrow> \<lparr>acts = as, rest = w', out = Exhausted\<rparr>
           | x # xs \<Rightarrow>
               (case x of
                  Raises e \<Rightarrow> enroll_except (as @ [Http_post_enroll card_id]) (w'\<lparr>remote := xs\<rparr>) e
                | Response status b \<Rightarrow>
                    if status = 200
                    then \<lparr>acts = as @ [Http_post_enroll card_id, Hw (Indicate Success)],
                          rest = w'\<lparr>remote := xs\<rparr>,
                          out = Returned \<lparr>status_code = 200,
                                  json_body = [(''type'', Str ''rfid''), (''card_id'', Str card_id),
                                               (''status'', Str ''success''), (''message'', Msg Enroll_ok)]\<rparr>\<rparr>
                    else \<lparr>acts = as @ [Http_post_enroll card_id, Hw (Indicate Failure)],
                          rest = w'\<lparr>remote := xs\<rparr>,
                          out = Returned \<lparr>status_code = 500,
                                  json_body = [(''status'', Str ''error''),
                                               (''message'', Msg Remote_failed)]\<rparr>\<rparr>)))"

text \<open>
  \<^verbatim>\<open>start_enrollment_server\<close> of \<^verbatim>\<open>src/rfid_module.py\<close>: it registers the route,
  starts the server thread and returns.
\<close>

definition start_enrollment_server :: "handler \<Rightarrow> world \<Rightarrow> unit run" where
  "start_enrollment_server h w =
     (if device_mode h \<noteq> ENROLLER_MODE then \<lparr>acts = [], rest = w, out = Raised RuntimeError\<rparr>
      else \<lparr>acts = [Server_start], rest = w, out = Returned ()\<rparr>)"

subsection \<open>Enroller mode, auto-capture (\<^verbatim>\<open>src/rfid_module_enroll.py\<close>)\<close>

text \<open>
  The \<^verbatim>\<open>while True\<close> loop of \<^verbatim>\<open>start_enrollment_server\<close>. The status of the response
  is printed, not tested.
\<close>

fun enrollment_loop :: "nat \<Rightarrow> handler \<Rightarrow> world \<Rightarrow> unit run" where
  "enrollment_loop 0 h w = \<lparr>acts = [], rest = w, out = Exhausted\<rparr>"
| "enrollment_loop (Suc fuel) h w =
     (let r = read_card h 10000 (polls w); w' = w\<lparr>polls := cr_polls r\<rparr> in
      case cr_out r of
        Exhausted \<Rightarrow> \<lparr>acts = cr_acts r, rest = w', out = Exhausted\<rparr>
      | Raised e \<Rightarrow> \<lparr>acts = cr_acts r, rest = w', out = Raised e\<rparr>
      | Returned None \<Rightarrow> r_before (cr_acts r @ [Sleep 500]) (enrollment_loop fuel h w')
      | Returned (Some card_id) \<Rightarrow>
          (case remote w' of
             [] \<Rightarrow> \<lparr>acts = cr_acts r, rest = w', out = Exhausted\<rparr>
           | x # xs \<Rightarrow>
               (case x of
                  Raises e \<Rightarrow>
                    \<lparr>acts = cr_acts r @ [Http_post_temporary card_id],
                     rest = w'\<lparr>remote := xs\<rparr>, out = Raised e\<rparr>
                | Response status b \<Rightarrow>
                    r_before (cr_acts r @ [Http_post_temporary card_id, Hw (Indicate Success), Sleep 3000])
                      (enrollment_loop fuel h (w'\<lparr>remote := xs\<rparr>)))))"

text \<open>
  \<^verbatim>\<open>start_enrollment_server\<close> of \<^verbatim>\<open>src/rfid_module_enroll.py\<close>: the mode check, the
  server thread, the loop, and around the loop the handlers for \<^verbatim>\<open>KeyboardInterrupt\<close>
  (prints) and \<^verbatim>\<open>Exception\<close> (signals failure), then \<^verbatim>\<open>finally: GPIO.cleanup()\<close>.
\<close>

definition start_enrollment_server_enroll :: "nat \<Rightarrow> handler \<Rightarrow> world \<Rightarrow> unit run" where
  "start_enrollment_server_enroll fuel h w =
     (if device_mode h \<noteq> ENROLLER_MODE then \<lparr>acts = [], rest = w, out = Raised RuntimeError\<rparr>
      else
        (let r = r_before [Server_start] (enrollment_loop fuel h w) in
         case out r of
           Raised e \<Rightarrow>
             if e = KeyboardInterrupt
             then r\<lparr>acts := acts r @ [Gpio_cleanup], out := Returned ()\<rparr>
             else if is_Exception e
             then r\<lparr>acts := acts r @ [Hw (Indicate Failure), Gpio_cleanup], out := Returned ()\<rparr>
             else r\<lparr>acts := acts r @ [Gpio_cleanup]\<rparr>
         | Returned u \<Rightarrow> r\<lparr>acts := acts r @ [Gpio_cleanup]\<rparr>
         | Exhausted \<Rightarrow> r))"

subsection \<open>The main program of \<^verbatim>\<open>src/rfid_module.py\<close>\<close>

text \<open>
  How the process is left: with an exit status, or still running when the observation
  ends. A script that runs off its end exits with status 0; an exception that nothing
  catches exits with status 1.
\<close>

datatype process_end = Exit nat | Running

definition DEVICE_MODE :: int where
  "DEVICE_MODE = READER_MODE"

text \<open>
  The \<^verbatim>\<open>try\<close> block of the main program with its handler for \<^verbatim>\<open>Exception\<close>, which
  prints. The destructor of the handler object runs when the object is dropped: after a
  constructor that raised, as soon as the handler clause has released the exception; after
  the mode method has returned, at the end of the script. The server thread of the
  enroller branch keeps the process alive.
\<close>

definition main :: "(nat \<Rightarrow> init_outcome) \<Rightarrow> nat \<Rightarrow> world \<Rightarrow> action list \<times> process_end" where
  "main stub fuel w =
     (let c = PN532Handler_init DEVICE_MODE 3 stub in
      case h_out c of
        Raised e \<Rightarrow>
          (h_acts c @ PN532Handler_del (h_self c), if is_Exception e then Exit 0 else Exit 1)
      | Exhausted \<Rightarrow> (h_acts c, Running)
      | Returned u \<Rightarrow>
          if DEVICE_MODE = READER_MODE then
            (let r = check_card_access fuel (h_self c) w in
             case out r of
               Exhausted \<Rightarrow> (h_acts c @ acts r, Running)
             | Returned v \<Rightarrow> (h_acts c @ acts r @ PN532Handler_del (h_self c), Exit 0)
             | Raised e \<Rightarrow>
                 (h_acts c @ acts r @ PN532Handler_del (h_self c),
                  if is_Exception e then Exit 0 else Exit 1))
          else
            (let r = start_enrollment_server (h_self c) w in
             case out r of
               Raised e \<Rightarrow>
                 (h_acts c @ acts r @ PN532Handler_del (h_self c),
                  if is_Exception e then Exit 0 else Exit 1)
             | _ \<Rightarrow> (h_acts c @ acts r, Running)))"

section \<open>Properties\<close>

subsection \<open>What the properties are stated with\<close>

text \<open>
  The time one pass of the polling loop takes: the poll, and the pause of 100 ms when
  the poll raised.
\<close>

definition step_time :: "ms \<times> poll \<Rightarrow> ms" where
  "step_time p = fst p + (case snd p of Poll_raises e \<Rightarrow> 100 | _ \<Rightarrow> 0)"

text \<open>A poll that hands no UID to \<^verbatim>\<open>read_card\<close>: no card, or an error that the loop catches.\<close>

definition no_uid :: "poll \<Rightarrow> bool" where
  "no_uid r = (case r of Uid u \<Rightarrow> False | No_card \<Rightarrow> True | Poll_raises e \<Rightarrow> is_Exception e)"

definition elapsed_of :: "(ms \<times> poll) list \<Rightarrow> ms" where
  "elapsed_of ps = sum_list (map step_time ps)"

text \<open>A bring-up stub whose every attempt ends the same way.\<close>

definition every_attempt :: "init_outcome \<Rightarrow> nat \<Rightarrow> init_outcome" where
  "every_attempt x k = x"

text \<open>
  Counting in a trace of the bring-up: an attempt starts with the acquisition of the bus,
  a backoff is the sleep of two seconds.
\<close>

definition attempts :: "action list \<Rightarrow> nat" where
  "attempts as = length (filter (\<lambda>a. a = Bus_acquire) as)"

definition backoffs :: "action list \<Rightarrow> nat" where
  "backoffs as = length (filter (\<lambda>a. a = Sleep 2000) as)"

text \<open>
  The order of remote calls, signals and polls in a trace. A trace is in order when every
  signal comes after a remote call whose outcome has not been signalled yet, and no poll
  and no further remote call comes between a remote call and the signal that answers it.
  \<open>phase_after\<close> is the phase in which a trace leaves the check.
\<close>

datatype phase = Waiting | Outcome_known

fun ordered :: "phase \<Rightarrow> action list \<Rightarrow> bool" where
  "ordered ph [] = True"
| "ordered ph (Poll # as) = (ph = Waiting \<and> ordered Waiting as)"
| "ordered ph (Http_get c # as) = (ph = Waiting \<and> ordered Outcome_known as)"
| "ordered ph (Http_post_enroll c # as) = (ph = Waiting \<and> ordered Outcome_known as)"
| "ordered ph (Http_post_temporary c # as) = (ph = Waiting \<and> ordered Outcome_known as)"
| "ordered ph (Hw (Indicate s) # as) = (ph = Outcome_known \<and> ordered Waiting as)"
| "ordered ph (a # as) = ordered ph as"

fun phase_after :: "phase \<Rightarrow> action list \<Rightarrow> phase" where
  "phase_after ph [] = ph"
| "phase_after ph (Poll # as) = phase_after Waiting as"
| "phase_after ph (Http_get c # as) = phase_after Outcome_known as"
| "phase_after ph (Http_post_enroll c # as) = phase_after Outcome_known as"
| "phase_after ph (Http_post_temporary c # as) = phase_after Outcome_known as"
| "phase_after ph (Hw (Indicate s) # as) = phase_after Waiting as"
| "phase_after ph (a # as) = phase_after ph as"

declare read_card_from.simps [simp del]
declare initialize_from.simps [simp del]

subsection \<open>The polling loop\<close>

lemma read_card_from_done:
  "\<not> el < T \<Longrightarrow> read_card_from pn T el ps = \<lparr>cr_acts = [], cr_elapsed = el, cr_polls = ps, cr_out = Returned None\<rparr>"
  by (subst read_card_from.simps) simp

lemma read_card_from_no_card:
  "el < T \<Longrightarrow> read_card_from True T el ((d, No_card) # ps) = cr_before [Poll] (read_card_from True T (el + d) ps)"
  by (subst read_card_from.simps) simp

lemma read_card_from_raises:
  "el < T \<Longrightarrow> is_Exception e \<Longrightarrow> read_card_from True T el ((d, Poll_raises e) # ps) =
     cr_before [Poll, Sleep 100] (read_card_from True T (el + d + 100) ps)"
  by (subst read_card_from.simps) simp

lemma read_card_from_uid:
  "el < T \<Longrightarrow> read_card_from True T el ((d, Uid u) # ps) =
     \<lparr>cr_acts = [Poll], cr_elapsed = el + d, cr_polls = ps, cr_out = Returned (Some (hex_of_bytes u))\<rparr>"
  by (subst read_card_from.simps) simp

lemma read_card_from_missing:
  "el < T \<Longrightarrow> read_card_from False T el ps = cr_before [Sleep 100] (read_card_from False T (el + 100) ps)"
  by (subst read_card_from.simps) simp

lemma cr_before_sel [simp]:
  "cr_out (cr_before as r) = cr_out r" "cr_elapsed (cr_before as r) = cr_elapsed r"
  "cr_polls (cr_before as r) = cr_polls r" "cr_acts (cr_before as r) = as @ cr_acts r"
  by (simp_all add: cr_before_def)

lemma read_card_from_never_uid:
  assumes "\<forall>p\<in>set ps. no_uid (snd p) \<and> step_time p \<le> P"
    and "T \<le> el + sum_list (map step_time ps)" and "el \<le> T + P"
  shows "cr_out (read_card_from True T el ps) = Returned None
       \<and> T \<le> cr_elapsed (read_card_from True T el ps)
       \<and> cr_elapsed (read_card_from True T el ps) \<le> T + P"
  using assms
proof (induction ps arbitrary: el)
  case Nil
  then show ?case by (simp add: read_card_from_done)
next
  case (Cons p ps)
  show ?case
  proof (cases "el < T")
    case False
    with Cons.prems show ?thesis by (simp add: read_card_from_done)
  next
    case True
    obtain d r where p: "p = (d, r)" by (cases p)
    from Cons.prems p have nu: "no_uid r" and st: "step_time (d, r) \<le> P" by auto
    show ?thesis
    proof (cases r)
      case (Uid u)
      with nu show ?thesis by (simp add: no_uid_def)
    next
      case No_card
      with st have "d \<le> P" by (simp add: step_time_def)
      with True Cons.prems p No_card
      have "cr_out (read_card_from True T (el + d) ps) = Returned None
       \<and> T \<le> cr_elapsed (read_card_from True T (el + d) ps)
       \<and> cr_elapsed (read_card_from True T (el + d) ps) \<le> T + P"
        by (intro Cons.IH) (auto simp: step_time_def)
      with True p No_card show ?thesis by (simp add: read_card_from_no_card)
    next
      case (Poll_raises e)
      with nu have ex: "is_Exception e" by (simp add: no_uid_def)
      from st Poll_raises have "d + 100 \<le> P" by (simp add: step_time_def)
      with True Cons.prems p Poll_raises
      have "cr_out (read_card_from True T (el + d + 100) ps) = Returned None
       \<and> T \<le> cr_elapsed (read_card_from True T (el + d + 100) ps)
       \<and> cr_elapsed (read_card_from True T (el + d + 100) ps) \<le> T + P"
        by (intro Cons.IH) (auto simp: step_time_def)
      with True p Poll_raises ex show ?thesis by (simp add: read_card_from_raises)
    qed
  qed
qed

lemma read_card_from_not_raised:
  assumes "\<forall>p\<in>set ps. \<forall>e. snd p = Poll_raises e \<longrightarrow> is_Exception e"
  shows "cr_out (read_card_from pn T el ps) \<noteq> Raised x"
  using assms
proof (induction pn T el ps rule: read_card_from.induct)
  case (1 pn T el ps)
  show ?case
  proof (cases "el < T")
    case False
    then show ?thesis by (simp add: read_card_from_done)
  next
    case True
    show ?thesis
    proof (cases pn)
      case False
      with True 1 show ?thesis by (simp add: read_card_from_missing)
    next
      case pn: True
      show ?thesis
      proof (cases ps)
        case Nil
        with True pn show ?thesis by (subst read_card_from.simps) simp
      next
        case (Cons p ps')
        obtain d r where p: "p = (d, r)" by (cases p)
        show ?thesis
        proof (cases r)
          case (Uid u)
          with True pn Cons p show ?thesis by (simp add: read_card_from_uid)
        next
          case No_card
          with True pn Cons p 1 show ?thesis by (simp add: read_card_from_no_card)
        next
          case (Poll_raises e)
          with "1.prems" Cons p have "is_Exception e" by simp
          with True pn Cons p Poll_raises 1 show ?thesis by (simp add: read_card_from_raises)
        qed
      qed
    qed
  qed
qed

lemma read_card_from_window:
  "cr_out (read_card_from pn T el ps) = Returned None \<Longrightarrow> T \<le> cr_elapsed (read_card_from pn T el ps)"
proof (induction pn T el ps rule: read_card_from.induct)
  case (1 pn T el ps)
  show ?case
  proof (cases "el < T")
    case False
    then show ?thesis by (simp add: read_card_from_done)
  next
    case True
    show ?thesis
    proof (cases pn)
      case False
      with True 1 show ?thesis by (simp add: read_card_from_missing)
    next
      case pn: True
      show ?thesis
      proof (cases ps)
        case Nil
        with True pn "1.prems" show ?thesis by (subst (asm) read_card_from.simps) simp
      next
        case (Cons p ps')
        obtain d r where p: "p = (d, r)" by (cases p)
        show ?thesis
        proof (cases r)
          case (Uid u)
          with True pn Cons p "1.prems" show ?thesis by (simp add: read_card_from_uid)
        next
          case No_card
          with True pn Cons p 1 show ?thesis by (simp add: read_card_from_no_card)
        next
          case (Poll_raises e)
          show ?thesis
          proof (cases "is_Exception e")
            case True
            with \<open>el < T\<close> pn Cons p Poll_raises 1 show ?thesis by (simp add: read_card_from_raises)
          next
            case False
            with \<open>el < T\<close> pn Cons p Poll_raises "1.prems" show ?thesis
              by (subst (asm) read_card_from.simps) simp
          qed
        qed
      qed
    qed
  qed
qed

lemma read_card_from_later_uid:
  assumes "\<forall>p\<in>set pre. no_uid (snd p)" and "el + elapsed_of pre < T"
  shows "cr_out (read_card_from True T el (pre @ (d, Uid u) # ps)) = Returned (Some (hex_of_bytes u))"
  using assms
proof (induction pre arbitrary: el)
  case Nil
  then show ?case by (simp add: read_card_from_uid elapsed_of_def)
next
  case (Cons p pre)
  obtain d' r where p: "p = (d', r)" by (cases p)
  from Cons.prems have el: "el < T" by simp
  show ?case
  proof (cases r)
    case (Uid u')
    with Cons.prems p show ?thesis by (simp add: no_uid_def)
  next
    case No_card
    with Cons.prems p el show ?thesis
      by (simp add: read_card_from_no_card Cons.IH elapsed_of_def step_time_def)
  next
    case (Poll_raises e)
    with Cons.prems p have "is_Exception e" by (simp add: no_uid_def)
    with Cons.prems p el Poll_raises show ?thesis
      by (simp add: read_card_from_raises Cons.IH elapsed_of_def step_time_def add.assoc)
  qed
qed

lemma ceil_step: "el < T \<Longrightarrow> (T + 99 - el) div 100 = Suc ((T - (el + 100) + 99) div (100::nat))"
proof (cases "T \<le> el + 100")
  case True
  assume "el < T"
  with True have a: "T - (el + 100) = 0" and b: "100 \<le> T + 99 - el" and c: "T + 99 - el < 200" by simp_all
  from b c have "(T + 99 - el) div 100 = 1" 
    by (intro div_nat_eqI) simp_all
  with a show ?thesis by simp
next
  case False
  then have "T + 99 - el = (T - (el + 100) + 99) + 100" by simp
  then show ?thesis by (simp only: div_add_self2)
qed

lemma read_card_from_no_handle:
  "read_card_from False T el ps =
     \<lparr>cr_acts = replicate ((T + 99 - el) div 100) (Sleep 100),
      cr_elapsed = el + 100 * ((T + 99 - el) div 100),
      cr_polls = ps, cr_out = Returned None\<rparr>"
proof (induction "False" T el ps rule: read_card_from.induct)
  case (1 T el ps)
  show ?case
  proof (cases "el < T")
    case False
    then show ?thesis by (simp add: read_card_from_done)
  next
    case True
    then have "(T + 99 - (el + 100)) div 100 = (T - (el + 100) + 99) div 100" by simp
    with True show ?thesis
      by (simp add: read_card_from_missing 1 cr_before_def ceil_step)
  qed
qed

subsection \<open>Claims about \<^verbatim>\<open>read_card\<close>\<close>

text \<open>
  Claim C7. Against a peripheral that never hands over a UID (every poll returns
  \<^verbatim>\<open>None\<close> or raises an error the loop catches), whose script covers the window and
  where one pass of the polling loop takes at most the poll interval \<open>P\<close>,
  \<^verbatim>\<open>read_card\<close> with timeout \<open>T\<close> returns \<^verbatim>\<open>None\<close>, no earlier than \<open>T\<close> and no
  later than \<open>T + P\<close> after it was called.
\<close>

theorem read_card_timeout_window:
  assumes "has_pn532 h"
    and "\<forall>p\<in>set ps. no_uid (snd p) \<and> step_time p \<le> P"
    and "T \<le> elapsed_of ps"
  shows "cr_out (read_card h T ps) = Returned None
       \<and> T \<le> cr_elapsed (read_card h T ps)
       \<and> cr_elapsed (read_card h T ps) \<le> T + P"
  using assms read_card_from_never_uid [of ps P T 0] by (simp add: read_card_def elapsed_of_def)

theorem read_card_timeout_window_witness:
  "has_pn532 \<lparr>device_mode = 0, retry_count = 3, has_hw = True, has_pn532 = True\<rparr>
   \<and> 1000 \<le> elapsed_of [(500, No_card), (400, Poll_raises OtherException), (500, No_card)]
   \<and> cr_out (read_card \<lparr>device_mode = 0, retry_count = 3, has_hw = True, has_pn532 = True\<rparr> 1000
         [(500, No_card), (400, Poll_raises OtherException), (500, No_card)]) = Returned None
   \<and> 1000 \<le> cr_elapsed (read_card \<lparr>device_mode = 0, retry_count = 3, has_hw = True, has_pn532 = True\<rparr> 1000
         [(500, No_card), (400, Poll_raises OtherException), (500, No_card)])
   \<and> cr_elapsed (read_card \<lparr>device_mode = 0, retry_count = 3, has_hw = True, has_pn532 = True\<rparr> 1000
         [(500, No_card), (400, Poll_raises OtherException), (500, No_card)]) \<le> 1000 + 500"
  using read_card_timeout_window
    [of "\<lparr>device_mode = 0, retry_count = 3, has_hw = True, has_pn532 = True\<rparr>"
        "[(500, No_card), (400, Poll_raises OtherException), (500, No_card)]" 500 1000]
  by (simp add: no_uid_def step_time_def elapsed_of_def is_Exception_def)

text \<open>
  Claim C8. An error raised by the peripheral during a poll never leaves
  \<^verbatim>\<open>read_card\<close>, and \<^verbatim>\<open>read_card\<close> returns \<^verbatim>\<open>None\<close> only once the whole window
  has passed. When the polls before the first UID return nothing or raise, and they end
  within the window, \<^verbatim>\<open>read_card\<close> returns that UID in hexadecimal.
\<close>

theorem read_card_absorbs_poll_errors:
  assumes "\<forall>p\<in>set ps. \<forall>e. snd p = Poll_raises e \<longrightarrow> is_Exception e"
  shows "(\<forall>x. cr_out (read_card h T ps) \<noteq> Raised x)
       \<and> (cr_out (read_card h T ps) = Returned None \<longrightarrow> T \<le> cr_elapsed (read_card h T ps))
       \<and> (\<forall>pre d uid ps'.
            has_pn532 h \<and> ps = pre @ (d, Uid uid) # ps' \<and> (\<forall>p\<in>set pre. no_uid (snd p))
              \<and> elapsed_of pre < T
            \<longrightarrow> cr_out (read_card h T ps) = Returned (Some (hex_of_bytes uid)))"
proof (intro conjI allI impI)
  fix x
  show "cr_out (read_card h T ps) \<noteq> Raised x"
    unfolding read_card_def using assms by (rule read_card_from_not_raised)
next
  assume "cr_out (read_card h T ps) = Returned None"
  then show "T \<le> cr_elapsed (read_card h T ps)"
    unfolding read_card_def by (rule read_card_from_window)
next
  fix pre d uid ps'
  assume a: "has_pn532 h \<and> ps = pre @ (d, Uid uid) # ps' \<and> (\<forall>p\<in>set pre. no_uid (snd p))
              \<and> elapsed_of pre < T"
  then have "cr_out (read_card_from True T 0 (pre @ (d, Uid uid) # ps')) = Returned (Some (hex_of_bytes uid))"
    by (intro read_card_from_later_uid) simp_all
  with a show "cr_out (read_card h T ps) = Returned (Some (hex_of_bytes uid))"
    by (simp add: read_card_def)
qed

lemma hex_example: "hex_of_bytes [0x04, 0xa3, 0xb2, 0xc1] = ''04a3b2c1''"
  by (simp add: hex_of_bytes_def hex_byte_def hex_digit_def)

theorem read_card_absorbs_poll_errors_witness:
  "cr_out (read_card \<lparr>device_mode = 0, retry_count = 3, has_hw = True, has_pn532 = True\<rparr> 1000
     [(30, Poll_raises OtherException), (200, Uid [0x04, 0xa3, 0xb2, 0xc1]), (500, No_card)])
   = Returned (Some ''04a3b2c1'')"
proof -
  have "\<forall>p\<in>set [(30::nat, Poll_raises OtherException), (200, Uid [0x04, 0xa3, 0xb2, 0xc1]), (500, No_card)].
          \<forall>e. snd p = Poll_raises e \<longrightarrow> is_Exception e"
    by (simp add: is_Exception_def)
  from read_card_absorbs_poll_errors [OF this, of "\<lparr>device_mode = 0, retry_count = 3, has_hw = True, has_pn532 = True\<rparr>" 1000]
  have "\<forall>pre d uid ps'.
            [(30::nat, Poll_raises OtherException), (200, Uid [0x04, 0xa3, 0xb2, 0xc1]), (500, No_card)]
              = pre @ (d, Uid uid) # ps' \<and> (\<forall>p\<in>set pre. no_uid (snd p)) \<and> elapsed_of pre < 1000
            \<longrightarrow> cr_out (read_card \<lparr>device_mode = 0, retry_count = 3, has_hw = True, has_pn532 = True\<rparr> 1000
                 [(30, Poll_raises OtherException), (200, Uid [0x04, 0xa3, 0xb2, 0xc1]), (500, No_card)])
                = Returned (Some (hex_of_bytes uid))"
    by simp
  from this [rule_format, of "[(30, Poll_raises OtherException)]" 200 "[0x04, 0xa3, 0xb2, 0xc1]" "[(500, No_card)]"]
  show ?thesis
    by (simp add: no_uid_def is_Exception_def elapsed_of_def step_time_def hex_example)
qed

text \<open>
  Claim C10. A handler constructed with \<^verbatim>\<open>retry_count = 0\<close> makes no bring-up
  attempt, raises nothing and never assigns \<^verbatim>\<open>self.pn532\<close>. Every pass of a later
  \<^verbatim>\<open>read_card\<close> takes the branch of the failed attribute lookup, the peripheral is
  never polled, and \<^verbatim>\<open>None\<close> comes back only after the whole timeout.
\<close>

theorem retry_count_zero_degrades:
  "h_out (PN532Handler_init mode 0 stub) = Returned ()
   \<and> h_acts (PN532Handler_init mode 0 stub) = [Hw Construct]
   \<and> \<not> has_pn532 (h_self (PN532Handler_init mode 0 stub))
   \<and> read_card (h_self (PN532Handler_init mode 0 stub)) T ps =
       \<lparr>cr_acts = replicate ((T + 99) div 100) (Sleep 100),
        cr_elapsed = 100 * ((T + 99) div 100),
        cr_polls = ps, cr_out = Returned None\<rparr>
   \<and> T \<le> 100 * ((T + 99) div 100)"
proof -
  have i: "initialize_pn532 \<lparr>device_mode = mode, retry_count = 0, has_hw = True, has_pn532 = False\<rparr> stub
        = \<lparr>h_acts = [], h_self = \<lparr>device_mode = mode, retry_count = 0, has_hw = True, has_pn532 = False\<rparr>,
           h_out = Returned None\<rparr>"
    by (simp add: initialize_pn532_def initialize_from.simps)
  have t: "T \<le> 100 * ((T + 99) div 100)" by presburger
  show ?thesis
    using t by (simp add: PN532Handler_init_def i read_card_def read_card_from_no_handle)
qed

subsection \<open>Claims about the bring-up\<close>

lemma h_before_sel [simp]:
  "h_out (h_before as r) = h_out r" "h_self (h_before as r) = h_self r"
  "h_acts (h_before as r) = as @ h_acts r"
  by (simp_all add: h_before_def)

lemma attempts_simps [simp]:
  "attempts [] = 0" "attempts (a # as) = (if a = Bus_acquire then 1 else 0) + attempts as"
  by (simp_all add: attempts_def)

lemma backoffs_simps [simp]:
  "backoffs [] = 0" "backoffs (a # as) = (if a = Sleep 2000 then 1 else 0) + backoffs as"
  by (simp_all add: backoffs_def)

lemma attempts_attempt_acts [simp]: "attempts (attempt_acts x) = 1"
  by (cases x rule: attempt_acts.cases) simp_all

lemma backoffs_attempt_acts [simp]: "backoffs (attempt_acts x) = 0"
  by (cases x rule: attempt_acts.cases) simp_all

lemma attempts_append [simp]: "attempts (as @ bs) = attempts as + attempts bs"
  by (simp add: attempts_def)

lemma backoffs_append [simp]: "backoffs (as @ bs) = backoffs as + backoffs bs"
  by (simp add: backoffs_def)

lemma attempts_concat:
  "(\<And>x. x \<in> set xs \<Longrightarrow> attempts (f x) = 1) \<Longrightarrow> attempts (concat (map f xs)) = length xs"
  by (induction xs) simp_all

lemma initialize_from_all_fail:
  assumes "\<forall>k. a \<le> k \<and> k < m \<longrightarrow> stub k \<noteq> Init_ok" and "a < m"
  shows "h_out (initialize_from (int m) stub a h) = Raised RuntimeError
       \<and> h_acts (initialize_from (int m) stub a h) =
           concat (map (\<lambda>k. attempt_acts (stub k) @ (if Suc k < m then [Sleep 2000] else [])) [a..<m])
       \<and> has_hw (h_self (initialize_from (int m) stub a h)) = has_hw h"
  using assms
proof (induction "m - Suc a" arbitrary: a h)
  case 0
  then have m: "m = Suc a" by simp
  from 0 obtain s where s: "stub a = Init_fails s" by (cases "stub a") auto
  show ?case
    by (subst (1 2 3) initialize_from.simps) (simp add: m s Let_def)
next
  case (Suc d)
  then have lt: "Suc a < m" and d: "d = m - Suc (Suc a)" by simp_all
  from Suc.prems obtain s where s: "stub a = Init_fails s" by (cases "stub a") auto
  let ?h = "if assigns (stub a) then h\<lparr>has_pn532 := True\<rparr> else h"
  from Suc.prems lt have ih: "h_out (initialize_from (int m) stub (Suc a) ?h) = Raised RuntimeError
       \<and> h_acts (initialize_from (int m) stub (Suc a) ?h) =
           concat (map (\<lambda>k. attempt_acts (stub k) @ (if Suc k < m then [Sleep 2000] else [])) [Suc a..<m])
       \<and> has_hw (h_self (initialize_from (int m) stub (Suc a) ?h)) = has_hw ?h"
    by (intro Suc.hyps(1) d) auto
  from lt have upt: "[a..<m] = a # [Suc a..<m]" by (simp add: upt_conv_Cons)
  show ?case
    by (subst (1 2 3) initialize_from.simps) (use lt s ih in \<open>simp add: Let_def upt\<close>)
qed

lemma initialize_from_first_success:
  assumes "stub k = Init_ok" and "\<forall>j. a \<le> j \<and> j < k \<longrightarrow> stub j \<noteq> Init_ok" and "a \<le> k" and "k < m"
  shows "h_out (initialize_from (int m) stub a h) = Returned (Some True)
       \<and> h_acts (initialize_from (int m) stub a h) =
           concat (map (\<lambda>j. attempt_acts (stub j) @ [Sleep 2000]) [a..<k]) @ attempt_acts Init_ok
       \<and> has_pn532 (h_self (initialize_from (int m) stub a h))"
  using assms
proof (induction "k - a" arbitrary: a h)
  case 0
  then have a: "a = k" by simp
  show ?case
    by (subst (1 2 3) initialize_from.simps) (use 0 a in \<open>simp add: Let_def\<close>)
next
  case (Suc d)
  then have lt: "a < k" and d: "d = k - Suc a" by simp_all
  with Suc.prems obtain s where s: "stub a = Init_fails s" by (cases "stub a") auto
  let ?h = "if assigns (stub a) then h\<lparr>has_pn532 := True\<rparr> else h"
  from Suc.prems lt have ih: "h_out (initialize_from (int m) stub (Suc a) ?h) = Returned (Some True)
       \<and> h_acts (initialize_from (int m) stub (Suc a) ?h) =
           concat (map (\<lambda>j. attempt_acts (stub j) @ [Sleep 2000]) [Suc a..<k]) @ attempt_acts Init_ok
       \<and> has_pn532 (h_self (initialize_from (int m) stub (Suc a) ?h))"
    by (intro Suc.hyps(1) d) auto
  from lt have upt: "[a..<k] = a # [Suc a..<k]" by (simp add: upt_conv_Cons)
  from lt Suc.prems have lt': "Suc a < m" by simp
  show ?case
    by (subst (1 2 3) initialize_from.simps) (use lt lt' s ih in \<open>simp add: Let_def upt\<close>)
qed

lemma backoffs_concat_all_fail:
  "a < m \<Longrightarrow> backoffs (concat (map (\<lambda>k. attempt_acts (stub k) @ (if Suc k < m then [Sleep 2000] else [])) [a..<m])) = m - Suc a"
proof (induction "m - Suc a" arbitrary: a)
  case 0
  then have "m = Suc a" by simp
  then show ?case by simp
next
  case (Suc d)
  then have lt: "Suc a < m" and d: "d = m - Suc (Suc a)" by simp_all
  from lt have upt: "[a..<m] = a # [Suc a..<m]" by (simp add: upt_conv_Cons)
  from Suc.hyps(1) [OF d lt] lt show ?case
    by (simp add: upt)
qed

text \<open>
  With a retry count of at least one the bring-up does what claim C2 says: against a
  peripheral that always fails it makes exactly \<open>n\<close> attempts with \<open>n - 1\<close> backoffs
  between them and raises; when the attempt with index \<open>k\<close> is the first to pass, it makes
  \<open>k + 1\<close> attempts, \<open>k\<close> backoffs, and returns \<^verbatim>\<open>True\<close>.
\<close>

lemma initialize_always_failing:
  assumes "1 \<le> retry_count h" and "\<forall>k. stub k \<noteq> Init_ok"
  shows "h_out (initialize_pn532 h stub) = Raised RuntimeError
       \<and> attempts (h_acts (initialize_pn532 h stub)) = nat (retry_count h)
       \<and> backoffs (h_acts (initialize_pn532 h stub)) = nat (retry_count h) - 1
       \<and> h_acts (initialize_pn532 h stub) =
           concat (map (\<lambda>k. attempt_acts (stub k) @ (if Suc k < nat (retry_count h) then [Sleep 2000] else []))
                    [0..<nat (retry_count h)])"
proof -
  let ?m = "nat (retry_count h)"
  from assms have m: "int ?m = retry_count h" "0 < ?m" by simp_all
  from initialize_from_all_fail [of 0 ?m stub h] assms m
  have r: "h_out (initialize_from (retry_count h) stub 0 h) = Raised RuntimeError
       \<and> h_acts (initialize_from (retry_count h) stub 0 h) =
           concat (map (\<lambda>k. attempt_acts (stub k) @ (if Suc k < ?m then [Sleep 2000] else [])) [0..<?m])"
    by simp
  have "attempts (concat (map (\<lambda>k. attempt_acts (stub k) @ (if Suc k < ?m then [Sleep 2000] else [])) [0..<?m])) = length [0..<?m]"
    by (rule attempts_concat) simp
  with r backoffs_concat_all_fail [of 0 ?m stub] m show ?thesis
    by (simp add: initialize_pn532_def)
qed

lemma initialize_first_success:
  assumes "stub k = Init_ok" and "\<forall>j<k. stub j \<noteq> Init_ok" and "int k < retry_count h"
  shows "h_out (initialize_pn532 h stub) = Returned (Some True)
       \<and> attempts (h_acts (initialize_pn532 h stub)) = Suc k
       \<and> backoffs (h_acts (initialize_pn532 h stub)) = k
       \<and> h_acts (initialize_pn532 h stub) =
           concat (map (\<lambda>j. attempt_acts (stub j) @ [Sleep 2000]) [0..<k]) @ attempt_acts Init_ok
       \<and> has_pn532 (h_self (initialize_pn532 h stub))"
proof -
  let ?m = "nat (retry_count h)"
  from assms have m: "int ?m = retry_count h" "k < ?m" by simp_all
  from initialize_from_first_success [of stub k 0 ?m h] assms m
  have r: "h_out (initialize_from (retry_count h) stub 0 h) = Returned (Some True)
       \<and> h_acts (initialize_from (retry_count h) stub 0 h) =
           concat (map (\<lambda>j. attempt_acts (stub j) @ [Sleep 2000]) [0..<k]) @ attempt_acts Init_ok
       \<and> has_pn532 (h_self (initialize_from (retry_count h) stub 0 h))"
    by simp
  have a: "attempts (concat (map (\<lambda>j. attempt_acts (stub j) @ [Sleep 2000]) [0..<k])) = length [0..<k]"
    by (rule attempts_concat) simp
  have b: "backoffs (concat (map (\<lambda>j. attempt_acts (stub j) @ [Sleep 2000]) [0..<k])) = k"
    by (induction k) simp_all
  from r a b show ?thesis
    by (simp add: initialize_pn532_def)
qed

text \<open>
  Claim C2, at the retry count 0 and a peripheral that always fails: the bring-up makes no
  attempt and returns \<^verbatim>\<open>None\<close>; it does not raise.
\<close>

theorem initialize_zero_retries:
  "initialize_pn532 \<lparr>device_mode = READER_MODE, retry_count = 0, has_hw = True, has_pn532 = False\<rparr>
     (every_attempt (Init_fails Bus))
   = \<lparr>h_acts = [], h_self = \<lparr>device_mode = READER_MODE, retry_count = 0, has_hw = True, has_pn532 = False\<rparr>,
      h_out = Returned None\<rparr>"
  by (simp add: initialize_pn532_def initialize_from.simps)

subsection \<open>Traces of the polling loop\<close>

lemma signals_append [simp]: "signals (as @ bs) = signals as @ signals bs"
  by (induction as rule: signals.induct) simp_all

lemma ordered_append:
  "ordered ph (as @ bs) = (ordered ph as \<and> ordered (phase_after ph as) bs)"
  by (induction ph as rule: ordered.induct) auto

lemma phase_after_append [simp]:
  "phase_after ph (as @ bs) = phase_after (phase_after ph as) bs"
  by (induction ph as rule: phase_after.induct) auto

lemma read_card_from_acts:
  "set (cr_acts (read_card_from pn T el ps)) \<subseteq> {Poll, Sleep 100}"
proof (induction pn T el ps rule: read_card_from.induct)
  case (1 pn T el ps)
  show ?case
  proof (cases "el < T")
    case False
    then show ?thesis by (simp add: read_card_from_done)
  next
    case True
    show ?thesis
    proof (cases pn)
      case False
      with True 1 show ?thesis by (simp add: read_card_from_missing)
    next
      case pn: True
      show ?thesis
      proof (cases ps)
        case Nil
        with True pn show ?thesis by (subst read_card_from.simps) simp
      next
        case (Cons p ps')
        obtain d r where p: "p = (d, r)" by (cases p)
        show ?thesis
        proof (cases r)
          case (Uid u)
          with True pn Cons p show ?thesis by (simp add: read_card_from_uid)
        next
          case No_card
          with True pn Cons p 1 show ?thesis by (simp add: read_card_from_no_card)
        next
          case (Poll_raises e)
          show ?thesis
          proof (cases "is_Exception e")
            case True
            with \<open>el < T\<close> pn Cons p Poll_raises 1 show ?thesis by (simp add: read_card_from_raises)
          next
            case False
            with \<open>el < T\<close> pn Cons p Poll_raises show ?thesis
              by (subst read_card_from.simps) simp
          qed
        qed
      qed
    qed
  qed
qed

lemma read_card_from_raised:
  "cr_out (read_card_from pn T el ps) = Raised x \<Longrightarrow> \<not> is_Exception x"
proof (induction pn T el ps rule: read_card_from.induct)
  case (1 pn T el ps)
  show ?case
  proof (cases "el < T")
    case False
    with "1.prems" show ?thesis by (simp add: read_card_from_done)
  next
    case True
    show ?thesis
    proof (cases pn)
      case False
      with True 1 show ?thesis by (simp add: read_card_from_missing)
    next
      case pn: True
      show ?thesis
      proof (cases ps)
        case Nil
        with True pn "1.prems" show ?thesis by (subst (asm) read_card_from.simps) simp
      next
        case (Cons p ps')
        obtain d r where p: "p = (d, r)" by (cases p)
        show ?thesis
        proof (cases r)
          case (Uid u)
          with True pn Cons p "1.prems" show ?thesis by (simp add: read_card_from_uid)
        next
          case No_card
          with True pn Cons p 1 show ?thesis by (simp add: read_card_from_no_card)
        next
          case (Poll_raises e)
          show ?thesis
          proof (cases "is_Exception e")
            case True
            with \<open>el < T\<close> pn Cons p Poll_raises 1 show ?thesis by (simp add: read_card_from_raises)
          next
            case False
            with \<open>el < T\<close> pn Cons p Poll_raises "1.prems" show ?thesis
              by (subst (asm) read_card_from.simps) simp
          qed
        qed
      qed
    qed
  qed
qed

lemma quiet_acts:
  "set as \<subseteq> {Poll, Sleep 100} \<Longrightarrow>
     signals as = [] \<and> ordered Waiting as \<and> phase_after Waiting as = Waiting
     \<and> (\<forall>c. Http_post_enroll c \<notin> set as)"
  by (induction as) auto

lemma read_card_quiet:
  "signals (cr_acts (read_card h T ps)) = []"
  "ordered Waiting (cr_acts (read_card h T ps))"
  "phase_after Waiting (cr_acts (read_card h T ps)) = Waiting"
  "Http_post_enroll c \<notin> set (cr_acts (read_card h T ps))"
  using quiet_acts [OF read_card_from_acts, of "has_pn532 h" T 0 ps]
  by (simp_all add: read_card_def)

lemma r_before_sel [simp]:
  "out (r_before as r) = out r" "rest (r_before as r) = rest r"
  "acts (r_before as r) = as @ acts r"
  by (simp_all add: r_before_def)

lemma read_card_one_uid:
  "0 < T \<Longrightarrow> read_card \<lparr>device_mode = m, retry_count = 3, has_hw = True, has_pn532 = True\<rparr> T ((d, Uid u) # ps)
     = \<lparr>cr_acts = [Poll], cr_elapsed = d, cr_polls = ps, cr_out = Returned (Some (hex_of_bytes u))\<rparr>"
  by (simp add: read_card_def read_card_from_uid)

subsection \<open>Claims about the mode loops and the enrollment route\<close>

text \<open>
  Claim C1 does not hold as stated: the remote outcomes it lists are not all there are. A
  response with status 200 whose body is JSON but not an object makes
  \<^verbatim>\<open>response.json().get('allowed')\<close> raise \<^verbatim>\<open>AttributeError\<close>, which the handler of
  the cycle does not catch: the event fires no signal at all.
\<close>

theorem check_card_event_no_signal:
  "signals (fst (check_card_event ''04a3b2c1'' (Response 200 (Json_raises AttributeError)))) = []
   \<and> snd (check_card_event ''04a3b2c1'' (Response 200 (Json_raises AttributeError)))
       = Raised AttributeError"
  by (simp add: check_card_event_def check_card_except_def)

text \<open>
  Claim C1, amended. In reader mode, for a card event with identifier \<open>card_id\<close>: when the
  remote check answers 200 with a true \<^verbatim>\<open>allowed\<close>, the event fires exactly one Success
  signal and no Failure signal; when it answers 200 with a false \<^verbatim>\<open>allowed\<close>, answers with
  another status, or the call or the decoding of the body fails with a
  \<^verbatim>\<open>RequestException\<close>, the event fires exactly one Failure signal and no Success signal;
  in all these cases the cycle ends normally and the loop goes on with the next cycle. No
  remote outcome other than 200 with a true \<^verbatim>\<open>allowed\<close> fires a Success signal. When the
  call or the evaluation of the body raises an exception that is not a
  \<^verbatim>\<open>RequestException\<close>, the event fires no signal, and the method returns with the remote
  call as its last action.
\<close>

theorem check_card_event_signals:
  "check_card_event card_id (Response 200 (Allowed_is True))
     = ([Http_get card_id, Hw (Indicate Success), Sleep 500], Returned ())
   \<and> signals (fst (check_card_event card_id (Response 200 (Allowed_is True)))) = [Success]
   \<and> signals (fst (check_card_event card_id (Response 200 (Allowed_is False)))) = [Failure]
   \<and> (status \<noteq> 200 \<longrightarrow> signals (fst (check_card_event card_id (Response status b))) = [Failure])
   \<and> signals (fst (check_card_event card_id (Raises RequestException))) = [Failure]
   \<and> signals (fst (check_card_event card_id (Response 200 (Json_raises RequestException)))) = [Failure]
   \<and> (x \<noteq> Response 200 (Allowed_is True) \<longrightarrow>
        Success \<notin> set (signals (fst (check_card_event card_id x))))
   \<and> (e \<noteq> RequestException \<longrightarrow>
        check_card_event card_id (Raises e) = ([Http_get card_id], Raised e)
        \<and> check_card_event card_id (Response 200 (Json_raises e)) = ([Http_get card_id], Raised e))
   \<and> (signals (fst (check_card_event card_id x)) = [Success]
        \<or> signals (fst (check_card_event card_id x)) = [Failure]
        \<longrightarrow> snd (check_card_event card_id x) = Returned ())
   \<and> (cr_out (read_card h 1000 (polls w)) = Returned (Some card_id) \<and> remote w = x # xs
        \<and> snd (check_card_event card_id x) = Returned () \<longrightarrow>
        check_card_access_loop (Suc fuel) h w =
          r_before (cr_acts (read_card h 1000 (polls w)) @ fst (check_card_event card_id x))
            (check_card_access_loop fuel h
               (w\<lparr>polls := cr_polls (read_card h 1000 (polls w)), remote := xs\<rparr>)))
   \<and> (device_mode h = READER_MODE
        \<and> cr_out (read_card h 1000 (polls w)) = Returned (Some card_id) \<and> remote w = x # xs
        \<and> snd (check_card_event card_id x) = Raised e \<longrightarrow>
        out (check_card_access (Suc fuel) h w) = Returned ()
        \<and> acts (check_card_access (Suc fuel) h w) =
            cr_acts (read_card h 1000 (polls w)) @ [Http_get card_id]
        \<and> signals (acts (check_card_access (Suc fuel) h w)) = [])"
proof -
  have ev: "signals (fst (check_card_event card_id (Response 200 (Allowed_is True)))) = [Success]
   \<and> check_card_event card_id (Response 200 (Allowed_is True))
     = ([Http_get card_id, Hw (Indicate Success), Sleep 500], Returned ())
   \<and> signals (fst (check_card_event card_id (Response 200 (Allowed_is False)))) = [Failure]
   \<and> (status \<noteq> 200 \<longrightarrow> signals (fst (check_card_event card_id (Response status b))) = [Failure])
   \<and> signals (fst (check_card_event card_id (Raises RequestException))) = [Failure]
   \<and> signals (fst (check_card_event card_id (Response 200 (Json_raises RequestException)))) = [Failure]
   \<and> (x \<noteq> Response 200 (Allowed_is True) \<longrightarrow>
        Success \<notin> set (signals (fst (check_card_event card_id x))))
   \<and> (e \<noteq> RequestException \<longrightarrow>
        check_card_event card_id (Raises e) = ([Http_get card_id], Raised e)
        \<and> check_card_event card_id (Response 200 (Json_raises e)) = ([Http_get card_id], Raised e))
   \<and> (signals (fst (check_card_event card_id x)) = [Success]
        \<or> signals (fst (check_card_event card_id x)) = [Failure]
        \<longrightarrow> snd (check_card_event card_id x) = Returned ())"
    by (auto simp: check_card_event_def check_card_except_def
          split: http_outcome.splits body.splits)
  have raised: "fst (check_card_event card_id x) = [Http_get card_id]"
    if "snd (check_card_event card_id x) = Raised e"
    using that
    by (auto simp: check_card_event_def check_card_except_def
          split: http_outcome.splits body.splits if_splits)
  have loop: "check_card_access_loop (Suc fuel) h w =
          r_before (cr_acts (read_card h 1000 (polls w)) @ fst (check_card_event card_id x))
            (check_card_access_loop fuel h
               (w\<lparr>polls := cr_polls (read_card h 1000 (polls w)), remote := xs\<rparr>))"
    if "cr_out (read_card h 1000 (polls w)) = Returned (Some card_id)" "remote w = x # xs"
      "snd (check_card_event card_id x) = Returned ()"
    using that by (cases "check_card_event card_id x") (simp add: Let_def)
  have ends: "out (check_card_access (Suc fuel) h w) = Returned ()
        \<and> acts (check_card_access (Suc fuel) h w) =
            cr_acts (read_card h 1000 (polls w)) @ [Http_get card_id]
        \<and> signals (acts (check_card_access (Suc fuel) h w)) = []"
    if "device_mode h = READER_MODE"
      "cr_out (read_card h 1000 (polls w)) = Returned (Some card_id)" "remote w = x # xs"
      "snd (check_card_event card_id x) = Raised e"
    using that raised [OF that(4)]
    by (cases "check_card_event card_id x")
       (simp add: check_card_access_def Let_def is_Exception_def read_card_quiet)
  from ev loop ends show ?thesis by blast
qed

theorem check_card_event_signals_witness:
  "signals (fst (check_card_event ''04a3b2c1'' (Response 404 (Allowed_is True)))) = [Failure]
   \<and> Success \<notin> set (signals (fst (check_card_event ''04a3b2c1'' (Response 404 (Allowed_is True)))))
   \<and> check_card_event ''04a3b2c1'' (Raises OtherException) = ([Http_get ''04a3b2c1''], Raised OtherException)
   \<and> acts (check_card_access (Suc 0)
        \<lparr>device_mode = READER_MODE, retry_count = 3, has_hw = True, has_pn532 = True\<rparr>
        \<lparr>polls = [(200, Uid [0x04, 0xa3, 0xb2, 0xc1])],
         remote = [Response 200 (Json_raises AttributeError)]\<rparr>)
      = [Poll, Http_get ''04a3b2c1'']
   \<and> out (check_card_access (Suc 0)
        \<lparr>device_mode = READER_MODE, retry_count = 3, has_hw = True, has_pn532 = True\<rparr>
        \<lparr>polls = [(200, Uid [0x04, 0xa3, 0xb2, 0xc1])],
         remote = [Response 200 (Json_raises AttributeError)]\<rparr>) = Returned ()"
proof -
  note a = check_card_event_signals
    [of "''04a3b2c1''" 404 "Allowed_is True" "Response 404 (Allowed_is True)" OtherException]
  note b = check_card_event_signals
    [of "''04a3b2c1''" 200 "Allowed_is True" "Response 200 (Json_raises AttributeError)" AttributeError
        "\<lparr>device_mode = READER_MODE, retry_count = 3, has_hw = True, has_pn532 = True\<rparr>"
        "\<lparr>polls = [(200, Uid [0x04, 0xa3, 0xb2, 0xc1])],
          remote = [Response 200 (Json_raises AttributeError)]\<rparr>" "[]" 0]
  have c: "snd (check_card_event ''04a3b2c1'' (Response 200 (Json_raises AttributeError)))
      = Raised AttributeError"
    by (simp add: check_card_event_def check_card_except_def)
  from a b c show ?thesis
    by (simp add: read_card_one_uid hex_example)
qed

text \<open>
  Claim C6. One request to the route \<^verbatim>\<open>POST /api\<close>: when \<^verbatim>\<open>read_card\<close> times out,
  the response is 408 with an error status and a message, one Failure signal is fired and
  no remote enroll request is made; when a card is read and the remote enroll call
  answers 200, the response is 200 with the card identifier and a success status, and one
  Success signal is fired; when the remote call answers with another status, the response
  is 500 with an error message, and one Failure signal is fired.
\<close>

theorem enroll_responses:
  "(cr_out (read_card h 10000 (polls w)) = Returned None \<longrightarrow>
      out (enroll h w) = Returned \<lparr>status_code = 408,
          json_body = [(''status'', Str ''error''), (''message'', Msg Read_timeout)]\<rparr>
      \<and> signals (acts (enroll h w)) = [Failure]
      \<and> (\<forall>c. Http_post_enroll c \<notin> set (acts (enroll h w))))
   \<and> (cr_out (read_card h 10000 (polls w)) = Returned (Some card_id)
        \<and> remote w = Response 200 b # xs \<longrightarrow>
      out (enroll h w) = Returned \<lparr>status_code = 200,
          json_body = [(''type'', Str ''rfid''), (''card_id'', Str card_id),
                       (''status'', Str ''success''), (''message'', Msg Enroll_ok)]\<rparr>
      \<and> signals (acts (enroll h w)) = [Success]
      \<and> Http_post_enroll card_id \<in> set (acts (enroll h w)))
   \<and> (cr_out (read_card h 10000 (polls w)) = Returned (Some card_id)
        \<and> remote w = Response status b # xs \<and> status \<noteq> 200 \<longrightarrow>
      out (enroll h w) = Returned \<lparr>status_code = 500,
          json_body = [(''status'', Str ''error''), (''message'', Msg Remote_failed)]\<rparr>
      \<and> signals (acts (enroll h w)) = [Failure])"
  by (auto simp: enroll_def Let_def read_card_quiet)

theorem enroll_responses_witness:
  "out (enroll \<lparr>device_mode = ENROLLER_MODE, retry_count = 3, has_hw = True, has_pn532 = True\<rparr>
          \<lparr>polls = [(200, Uid [0x04, 0xa3, 0xb2, 0xc1])], remote = [Response 503 (Allowed_is False)]\<rparr>)
   = Returned \<lparr>status_code = 500,
        json_body = [(''status'', Str ''error''), (''message'', Msg Remote_failed)]\<rparr>
   \<and> signals (acts (enroll \<lparr>device_mode = ENROLLER_MODE, retry_count = 3, has_hw = True, has_pn532 = True\<rparr>
          \<lparr>polls = [(200, Uid [0x04, 0xa3, 0xb2, 0xc1])], remote = [Response 503 (Allowed_is False)]\<rparr>))
     = [Failure]"
  using enroll_responses
    [of "\<lparr>device_mode = ENROLLER_MODE, retry_count = 3, has_hw = True, has_pn532 = True\<rparr>"
        "\<lparr>polls = [(200, Uid [0x04, 0xa3, 0xb2, 0xc1])], remote = [Response 503 (Allowed_is False)]\<rparr>"
        "''04a3b2c1''" "Allowed_is False" "[]" 503]
  by (simp add: read_card_one_uid hex_example)

text \<open>The order check rejects a signal without a remote call, and a poll before the signal.\<close>

lemma ordered_rejects:
  "\<not> ordered Waiting [Poll, Hw (Indicate Success)]"
  "\<not> ordered Waiting [Poll, Http_get c, Poll, Hw (Indicate Failure)]"
  "ordered Waiting [Poll, Http_get c, Hw (Indicate Failure), Sleep 500, Poll]"
  by simp_all

lemma check_card_event_ordered:
  "ordered Waiting (fst (check_card_event c x))"
  "snd (check_card_event c x) = Returned u \<Longrightarrow> phase_after Waiting (fst (check_card_event c x)) = Waiting"
  by (auto simp: check_card_event_def check_card_except_def split: http_outcome.splits body.splits if_splits)

lemma check_card_access_loop_ordered:
  "ordered Waiting (acts (check_card_access_loop fuel h w))"
proof (induction fuel arbitrary: w)
  case 0
  show ?case by simp
next
  case (Suc fuel)
  show ?case
  proof (cases "cr_out (read_card h 1000 (polls w))")
    case (Returned r)
    show ?thesis
    proof (cases r)
      case None
      with Returned Suc show ?thesis
        by (simp add: Let_def ordered_append read_card_quiet)
    next
      case (Some c)
      show ?thesis
      proof (cases "remote w")
        case Nil
        with Returned Some show ?thesis by (simp add: Let_def read_card_quiet)
      next
        case (Cons x xs)
        obtain as o' where e: "check_card_event c x = (as, o')" by (cases "check_card_event c x")
        with check_card_event_ordered [of c x]
        have oa: "ordered Waiting as" and pa: "\<And>u. o' = Returned u \<Longrightarrow> phase_after Waiting as = Waiting"
          by simp_all
        show ?thesis
        proof (cases o')
          case (Returned u)
          with \<open>cr_out (read_card h 1000 (polls w)) = Returned r\<close> Some Cons e oa pa Suc show ?thesis
            by (simp add: Let_def ordered_append read_card_quiet)
        next
          case (Raised ex)
          with \<open>cr_out (read_card h 1000 (polls w)) = Returned r\<close> Some Cons e oa show ?thesis
            by (simp add: Let_def ordered_append read_card_quiet)
        next
          case Exhausted
          with \<open>cr_out (read_card h 1000 (polls w)) = Returned r\<close> Some Cons e oa show ?thesis
            by (simp add: Let_def ordered_append read_card_quiet)
        qed
      qed
    qed
  next
    case (Raised ex)
    then show ?thesis by (simp add: Let_def read_card_quiet)
  next
    case Exhausted
    then show ?thesis by (simp add: Let_def read_card_quiet)
  qed
qed

lemma enrollment_loop_ordered:
  "ordered Waiting (acts (enrollment_loop fuel h w))
   \<and> (\<forall>e. out (enrollment_loop fuel h w) = Raised e \<and> is_Exception e \<longrightarrow>
         phase_after Waiting (acts (enrollment_loop fuel h w)) = Outcome_known)"
proof (induction fuel arbitrary: w)
  case 0
  show ?case by simp
next
  case (Suc fuel)
  show ?case
  proof (cases "cr_out (read_card h 10000 (polls w))")
    case (Returned r)
    show ?thesis
    proof (cases r)
      case None
      with Returned Suc show ?thesis
        by (simp add: Let_def ordered_append read_card_quiet)
    next
      case (Some c)
      show ?thesis
      proof (cases "remote w")
        case Nil
        with Returned Some show ?thesis by (simp add: Let_def read_card_quiet)
      next
        case (Cons x xs)
        show ?thesis
        proof (cases x)
          case (Response st b)
          with Returned Some Cons Suc show ?thesis
            by (simp add: Let_def ordered_append read_card_quiet)
        next
          case (Raises ex)
          with Returned Some Cons show ?thesis
            by (simp add: Let_def ordered_append read_card_quiet)
        qed
      qed
    qed
  next
    case (Raised ex)
    then have "\<not> is_Exception ex" unfolding read_card_def by (rule read_card_from_raised)
    with Raised show ?thesis by (simp add: Let_def read_card_quiet)
  next
    case Exhausted
    then show ?thesis by (simp add: Let_def read_card_quiet)
  qed
qed

text \<open>
  Claim C9. In every trace of the verification loop and of the auto-capture enrollment
  loop, a signal comes only after the remote call of its event, and no poll of the next
  read comes between a remote call and the signal that answers it.
\<close>

theorem mode_loops_signal_in_order:
  "ordered Waiting (acts (check_card_access fuel h w))
   \<and> ordered Waiting (acts (start_enrollment_server_enroll fuel h w))"
proof
  show "ordered Waiting (acts (check_card_access fuel h w))"
    using check_card_access_loop_ordered [of fuel h w]
    by (simp add: check_card_access_def Let_def split: outcome.splits)
next
  show "ordered Waiting (acts (start_enrollment_server_enroll fuel h w))"
    using enrollment_loop_ordered [of fuel h w]
    by (auto simp: start_enrollment_server_enroll_def Let_def ordered_append split: outcome.splits)
qed

text \<open>
  Claim C4 does not hold as stated: in the auto-capture enrollment loop a remote call that
  raises \<^verbatim>\<open>RequestException\<close> ends the loop. With five cycles of fuel, one card and a
  failing remote call, the method returns after the first cycle.
\<close>

theorem enrollment_loop_ends_on_remote_error:
  "out (start_enrollment_server_enroll 5
          \<lparr>device_mode = ENROLLER_MODE, retry_count = 3, has_hw = True, has_pn532 = True\<rparr>
          \<lparr>polls = [(200, Uid [0x04, 0xa3, 0xb2, 0xc1]), (500, No_card)],
           remote = [Raises RequestException]\<rparr>) = Returned ()
   \<and> acts (start_enrollment_server_enroll 5
          \<lparr>device_mode = ENROLLER_MODE, retry_count = 3, has_hw = True, has_pn532 = True\<rparr>
          \<lparr>polls = [(200, Uid [0x04, 0xa3, 0xb2, 0xc1]), (500, No_card)],
           remote = [Raises RequestException]\<rparr>)
       = [Server_start, Poll, Http_post_temporary ''04a3b2c1'', Hw (Indicate Failure), Gpio_cleanup]"
  by (simp add: start_enrollment_server_enroll_def numeral_nat read_card_one_uid hex_example
        is_Exception_def Let_def)

text \<open>
  Claim C4, amended. In the verification loop a remote call that raises
  \<^verbatim>\<open>RequestException\<close> is absorbed: one Failure signal, the cooldown, and the loop goes on
  with the next cycle. An exception that reaches the handlers around a loop ends the loop:
  in the verification loop any other exception of the remote call, without a signal; in
  the auto-capture enrollment loop any \<^verbatim>\<open>Exception\<close> of the remote call, after one
  Failure signal and the release of the GPIO.
\<close>

theorem loops_on_remote_errors:
  "(cr_out (read_card h 1000 (polls w)) = Returned (Some c)
      \<and> remote w = Raises RequestException # xs \<longrightarrow>
    check_card_access_loop (Suc fuel) h w =
      r_before (cr_acts (read_card h 1000 (polls w)) @ [Http_get c, Hw (Indicate Failure), Sleep 500])
        (check_card_access_loop fuel h
           (w\<lparr>polls := cr_polls (read_card h 1000 (polls w)), remote := xs\<rparr>)))
   \<and> (device_mode h = READER_MODE \<and> cr_out (read_card h 1000 (polls w)) = Returned (Some c)
      \<and> remote w = Raises e # xs \<and> e \<noteq> RequestException \<longrightarrow>
    out (check_card_access (Suc fuel) h w) = Returned ()
    \<and> acts (check_card_access (Suc fuel) h w) = cr_acts (read_card h 1000 (polls w)) @ [Http_get c])
   \<and> (device_mode h = ENROLLER_MODE \<and> cr_out (read_card h 10000 (polls w)) = Returned (Some c)
      \<and> remote w = Raises e # xs \<and> is_Exception e \<longrightarrow>
    out (start_enrollment_server_enroll (Suc fuel) h w) = Returned ()
    \<and> acts (start_enrollment_server_enroll (Suc fuel) h w) =
        Server_start # cr_acts (read_card h 10000 (polls w))
          @ [Http_post_temporary c, Hw (Indicate Failure), Gpio_cleanup])"
  by (auto simp: check_card_access_def start_enrollment_server_enroll_def Let_def
        check_card_event_def check_card_except_def is_Exception_def)

theorem loops_on_remote_errors_witness:
  "check_card_access_loop (Suc 0)
     \<lparr>device_mode = READER_MODE, retry_count = 3, has_hw = True, has_pn532 = True\<rparr>
     \<lparr>polls = [(200, Uid [0x04, 0xa3, 0xb2, 0xc1])], remote = [Raises RequestException]\<rparr>
   = \<lparr>acts = [Poll, Http_get ''04a3b2c1'', Hw (Indicate Failure), Sleep 500],
      rest = \<lparr>polls = [], remote = []\<rparr>, out = Exhausted\<rparr>"
  using loops_on_remote_errors
    [of "\<lparr>device_mode = READER_MODE, retry_count = 3, has_hw = True, has_pn532 = True\<rparr>"
        "\<lparr>polls = [(200, Uid [0x04, 0xa3, 0xb2, 0xc1])], remote = [Raises RequestException]\<rparr>"
        "''04a3b2c1''" "[]" 0 RequestException]
  by (simp add: read_card_one_uid hex_example r_before_def)

text \<open>
  Claim C3 does not hold as stated: when every bring-up attempt fails, the main program
  catches the error and the process ends with exit status 0.
\<close>

theorem main_exits_zero_on_init_failure:
  "snd (main (every_attempt (Init_fails Bus)) 0 \<lparr>polls = [], remote = []\<rparr>) = Exit 0"
  by (simp add: main_def PN532Handler_init_def initialize_pn532_def initialize_from.simps
        DEVICE_MODE_def Let_def is_Exception_def every_attempt_def)

text \<open>
  Claim C3, amended. When the three bring-up attempts of the main program all fail, the
  process ends with exit status 0, after exactly three attempts, and the last thing it does
  is the cleanup call of the hardware controller, which releases the GPIO.
\<close>

theorem main_init_failure:
  assumes "\<forall>k<3. stub k \<noteq> Init_ok"
  shows "snd (main stub fuel w) = Exit 0
       \<and> fst (main stub fuel w) =
           Hw Construct #
           concat (map (\<lambda>k. attempt_acts (stub k) @ (if Suc k < 3 then [Sleep 2000] else [])) [0..<3])
           @ [Hw Cleanup_call]
       \<and> attempts (fst (main stub fuel w)) = 3
       \<and> hw_rfid Cleanup_call = [Cleanup]"
proof -
  let ?h = "\<lparr>device_mode = DEVICE_MODE, retry_count = 3, has_hw = True, has_pn532 = False\<rparr>"
  from assms have "\<forall>k. 0 \<le> k \<and> k < 3 \<longrightarrow> stub k \<noteq> Init_ok" by simp
  from initialize_from_all_fail [OF this, of ?h]
  have r: "h_out (initialize_from 3 stub 0 ?h) = Raised RuntimeError"
    "h_acts (initialize_from 3 stub 0 ?h) =
       concat (map (\<lambda>k. attempt_acts (stub k) @ (if Suc k < 3 then [Sleep 2000] else [])) [0..<3])"
    "has_hw (h_self (initialize_from 3 stub 0 ?h))"
    by simp_all
  have a: "attempts (concat (map (\<lambda>k. attempt_acts (stub k) @ (if Suc k < 3 then [Sleep 2000] else [])) [0..<3])) = length [0..<3]"
    by (rule attempts_concat) simp
  from r a show ?thesis
    by (simp add: main_def PN532Handler_init_def initialize_pn532_def PN532Handler_del_def
          is_Exception_def cleanup_def)
qed

theorem main_init_failure_witness:
  "main (every_attempt (Init_fails Driver)) 7 \<lparr>polls = [], remote = []\<rparr>
   = ([Hw Construct, Bus_acquire, Sleep 1000, Driver_create, Sleep 2000,
       Bus_acquire, Sleep 1000, Driver_create, Sleep 2000,
       Bus_acquire, Sleep 1000, Driver_create, Hw Cleanup_call], Exit 0)"
proof -
  have e: "every_attempt (Init_fails Driver) k = Init_fails Driver" for k
    by (simp add: every_attempt_def)
  have "\<forall>k<3. every_attempt (Init_fails Driver) k \<noteq> Init_ok"
    by (simp add: e)
  from main_init_failure [of "every_attempt (Init_fails Driver)", OF this, of 7 "\<lparr>polls = [], remote = []\<rparr>"]
  show ?thesis
    by (simp add: prod_eq_iff upt_rec [of 0] upt_rec [of 1] upt_rec [of 2] numeral_3_eq_3 e)
qed

text \<open>
  Claim C5, in \<^verbatim>\<open>src/rfid_module_enroll.py\<close>: the success cue is one pulse of the green
  LED without a tone, and the failure cue is two pauses and one pulse of the red LED; the
  buzzer is never switched on and the failure cue is not repeated.
\<close>

theorem indicate_enroll_cues:
  "hw_enroll (Indicate Success) = [Output 14 HIGH, Pause 2000, Output 14 LOW]
   \<and> hw_enroll (Indicate Failure) = [Pause 100, Pause 100, Output 15 HIGH, Pause 2000, Output 15 LOW]
   \<and> switched_on (buzzer pins_enroll) (hw_enroll (Indicate Success)) = 0
   \<and> switched_on (buzzer pins_enroll) (hw_enroll (Indicate Failure)) = 0
   \<and> switched_on (red_led pins_enroll) (hw_enroll (Indicate Failure)) = 1"
  by (simp add: indicate_success_enroll_def indicate_failure_enroll_def blink_led_def
        pins_enroll_def switched_on_def numeral_2_eq_2)

text \<open>
  In \<^verbatim>\<open>src/rfid_module.py\<close> the cues are as claim C5 says: one tone and one pulse of the
  green LED for success; tone, red pulse and pause, twice, for failure.
\<close>

lemma indicate_rfid_cues:
  "indicate_success p = beep p 100 @ blink_led (green_led p) 2000"
  "indicate_failure p =
     (beep p 100 @ blink_led (red_led p) 100 @ [Pause 100])
     @ (beep p 100 @ blink_led (red_led p) 100 @ [Pause 100])"
  "switched_on (buzzer pins_rfid) (hw_rfid (Indicate Success)) = 1"
  "switched_on (green_led pins_rfid) (hw_rfid (Indicate Success)) = 1"
  "switched_on (buzzer pins_rfid) (hw_rfid (Indicate Failure)) = 2"
  "switched_on (red_led pins_rfid) (hw_rfid (Indicate Failure)) = 2"
  "hw_rfid (Indicate Success) \<noteq> hw_rfid (Indicate Failure)"
  by (simp_all add: indicate_success_def indicate_failure_def blink_led_def beep_def
        pins_rfid_def switched_on_def numeral_2_eq_2)

end
